theory Spec2Isabelle
  imports Complex_Main
begin

section \<open>JSON documents and the Python operations the scripts use\<close>

text \<open>
  \<^verbatim>\<open>json.load\<close> yields \<^verbatim>\<open>None\<close>, booleans, integers, floats, strings, lists and
  dictionaries with string keys. A dictionary keeps its keys in insertion order, so it is
  an association list; a dictionary built by Python has pairwise distinct keys.
  Floats are idealised as exact rationals: rounding, infinities and NaN are outside the
  model. Strings are lists of characters, one per Python character.
\<close>

datatype json =
    JNull
  | JBool bool
  | JInt int
  | JFloat rat
  | JStr string
  | JArr "json list"
  | JObj "(string \<times> json) list"

type_synonym dict = "(string \<times> json) list"

datatype py_error =
    TypeError
  | IndexError
  | KeyError
  | ZeroDivisionError
  | AttributeError
  | FileNotFoundError
  | FileExistsError
  | JSONDecodeError
  | SystemExit int

text \<open>A list comprehension \<^verbatim>\<open>[f(x) for x in xs]\<close>: left to right, the first raise ends it.\<close>

fun map_err :: "('a \<Rightarrow> 'e + 'b) \<Rightarrow> 'a list \<Rightarrow> 'e + 'b list" where
  "map_err f [] = Inr []"
| "map_err f (x # xs) =
     (case f x of
        Inl e \<Rightarrow> Inl e
      | Inr y \<Rightarrow> (case map_err f xs of Inl e \<Rightarrow> Inl e | Inr ys \<Rightarrow> Inr (y # ys)))"

text \<open>
  \<^verbatim>\<open>for x in obj\<close>: a list yields its elements, a string its characters, a dictionary its
  keys; \<^verbatim>\<open>None\<close>, booleans and numbers are not iterable.
\<close>

fun py_iter :: "json \<Rightarrow> py_error + json list" where
  "py_iter (JArr xs) = Inr xs"
| "py_iter (JStr s) = Inr (map (\<lambda>c. JStr [c]) s)"
| "py_iter (JObj kvs) = Inr (map (\<lambda>kv. JStr (fst kv)) kvs)"
| "py_iter _ = Inl TypeError"

text \<open>
  \<^verbatim>\<open>obj[i]\<close> for a literal index \<open>i \<ge> 0\<close>: lists and strings raise IndexError out of
  range, a dictionary with string keys raises KeyError, the other values are not
  subscriptable.
\<close>

fun py_getitem :: "json \<Rightarrow> nat \<Rightarrow> py_error + json" where
  "py_getitem (JArr xs) i = (if i < length xs then Inr (xs ! i) else Inl IndexError)"
| "py_getitem (JStr s) i = (if i < length s then Inr (JStr [s ! i]) else Inl IndexError)"
| "py_getitem (JObj kvs) i = Inl KeyError"
| "py_getitem _ i = Inl TypeError"

text \<open>Python numbers: \<^verbatim>\<open>bool\<close> is a subclass of \<^verbatim>\<open>int\<close>; a float is any other number.\<close>

fun int_of :: "json \<Rightarrow> int option" where
  "int_of (JInt i) = Some i"
| "int_of (JBool b) = Some (if b then 1 else 0)"
| "int_of _ = None"

fun num_of :: "json \<Rightarrow> rat option" where
  "num_of (JFloat q) = Some q"
| "num_of (JInt i) = Some (of_int i)"
| "num_of (JBool b) = Some (if b then 1 else 0)"
| "num_of _ = None"

text \<open>
  \<^verbatim>\<open>a + b\<close> with a number on the left, as in \<^verbatim>\<open>sum\<close>, whose accumulator starts at the
  integer 0: two integers give an integer, two numbers a float, anything else raises.
\<close>

definition py_add :: "json \<Rightarrow> json \<Rightarrow> py_error + json" where
  "py_add a b =
     (case (int_of a, int_of b) of
        (Some i, Some j) \<Rightarrow> Inr (JInt (i + j))
      | _ \<Rightarrow> (case (num_of a, num_of b) of
                (Some x, Some y) \<Rightarrow> Inr (JFloat (x + y))
              | _ \<Rightarrow> Inl TypeError))"

text \<open>\<^verbatim>\<open>a / b\<close>, true division: always a float, ZeroDivisionError on a zero divisor.\<close>

definition py_truediv :: "json \<Rightarrow> json \<Rightarrow> py_error + json" where
  "py_truediv a b =
     (case (num_of a, num_of b) of
        (Some x, Some y) \<Rightarrow> if y = 0 then Inl ZeroDivisionError else Inr (JFloat (x / y))
      | _ \<Rightarrow> Inl TypeError)"

fun sum_from :: "json \<Rightarrow> json list \<Rightarrow> py_error + json" where
  "sum_from acc [] = Inr acc"
| "sum_from acc (x # xs) =
     (case py_add acc x of Inl e \<Rightarrow> Inl e | Inr acc' \<Rightarrow> sum_from acc' xs)"

definition py_sum :: "json \<Rightarrow> py_error + json" where
  "py_sum obj = (case py_iter obj of Inl e \<Rightarrow> Inl e | Inr xs \<Rightarrow> sum_from (JInt 0) xs)"

subsection \<open>Dictionaries in insertion order\<close>

text \<open>\<^verbatim>\<open>d.get(key, default)\<close>\<close>

definition dict_get :: "dict \<Rightarrow> string \<Rightarrow> json \<Rightarrow> json" where
  "dict_get d k dflt = (case map_of d k of None \<Rightarrow> dflt | Some v \<Rightarrow> v)"

text \<open>
  \<^verbatim>\<open>d[key] = value\<close>: an existing key keeps its position and takes the new value, a new
  key goes to the end.
\<close>

fun dict_setitem :: "dict \<Rightarrow> string \<Rightarrow> json \<Rightarrow> dict" where
  "dict_setitem [] k v = [(k, v)]"
| "dict_setitem ((k', v') # d) k v =
     (if k' = k then (k', v) # d else (k', v') # dict_setitem d k v)"

text \<open>\<^verbatim>\<open>dict(items)\<close>: the pairs are stored one after the other into an empty dictionary.\<close>

definition dict_of_items :: "(string \<times> json) list \<Rightarrow> dict" where
  "dict_of_items items = foldl (\<lambda>d kv. dict_setitem d (fst kv) (snd kv)) [] items"

text \<open>\<^verbatim>\<open>xs.insert(i, x)\<close> for \<open>i \<ge> 0\<close>: an index past the end appends.\<close>

definition list_insert :: "'a list \<Rightarrow> nat \<Rightarrow> 'a \<Rightarrow> 'a list" where
  "list_insert xs i x = take i xs @ x # drop i xs"

section \<open>The migration script\<close>

definition insert_at_position :: "dict \<Rightarrow> string \<Rightarrow> json \<Rightarrow> nat \<Rightarrow> dict" where
  "insert_at_position d key val position =
     (let items = d;
          items = list_insert items position (key, val)
      in dict_of_items items)"

text \<open>\<^verbatim>\<open>[w / sum(shift_weights) for w in shift_weights]\<close>: the sum is taken anew for each \<open>w\<close>.\<close>

definition normalize_weights :: "json \<Rightarrow> py_error + json list" where
  "normalize_weights shift_weights =
     (case py_iter shift_weights of
        Inl e \<Rightarrow> Inl e
      | Inr ws \<Rightarrow>
          map_err (\<lambda>w. case py_sum shift_weights of
                         Inl e \<Rightarrow> Inl e
                       | Inr s \<Rightarrow> py_truediv w s) ws)"

text \<open>\<^verbatim>\<open>[item[i] for item in pairs]\<close>\<close>

definition column :: "nat \<Rightarrow> json \<Rightarrow> py_error + json list" where
  "column i pairs =
     (case py_iter pairs of
        Inl e \<Rightarrow> Inl e
      | Inr items \<Rightarrow> map_err (\<lambda>item. py_getitem item i) items)"

text \<open>
  The dictionary display \<^verbatim>\<open>{"values": [item[0] ...], "probs": [item[1] ...]}\<close>: the
  first comprehension runs to its end before the second starts.
\<close>

definition table_of_pairs :: "json \<Rightarrow> py_error + json" where
  "table_of_pairs pairs =
     (case column 0 pairs of
        Inl e \<Rightarrow> Inl e
      | Inr vs \<Rightarrow>
          (case column 1 pairs of
             Inl e \<Rightarrow> Inl e
           | Inr ps \<Rightarrow> Inr (JObj [(''values'', JArr vs), (''probs'', JArr ps)])))"

definition convert_to_1_0 :: "dict \<Rightarrow> py_error + dict" where
  "convert_to_1_0 old_json =
     (let inner_size_probs = dict_get old_json ''inner_size_probs'' (JArr []);
          outer_margin_probs = dict_get old_json ''outer_margin_probs'' (JArr []);
          shift_weights = dict_get old_json ''shift_weights'' (JArr [])
      in case normalize_weights shift_weights of
           Inl e \<Rightarrow> Inl e
         | Inr shift_weights \<Rightarrow>
             (let new_json = old_json
              in case table_of_pairs inner_size_probs of
                   Inl e \<Rightarrow> Inl e
                 | Inr inner \<Rightarrow>
                     (let new_json = dict_setitem new_json ''inner_size_probs'' inner
                      in case table_of_pairs outer_margin_probs of
                           Inl e \<Rightarrow> Inl e
                         | Inr outer \<Rightarrow>
                             (let new_json = dict_setitem new_json ''outer_margin_probs'' outer;
                                  new_json = dict_setitem new_json ''shift_weights''
                                     (JObj [(''values'', JNull), (''probs'', JArr shift_weights)]);
                                  new_json = insert_at_position new_json ''version'' (JStr ''1.0'') 2
                              in Inr new_json))))"

subsection \<open>The same function over a store of dictionaries\<close>

text \<open>
  Python dictionaries are mutable objects reached through references. To say what the
  function does to the dictionary it is given, dictionaries live in a store and are named
  by their address; \<^verbatim>\<open>old_json.copy()\<close> and \<^verbatim>\<open>dict(items)\<close> allocate, the three
  assignments \<^verbatim>\<open>new_json[...] = ...\<close> write through the reference \<^verbatim>\<open>new_json\<close>. The
  values inside a dictionary stay plain values: the function builds new lists and never
  writes into an existing one.
\<close>

type_synonym addr = nat
type_synonym heap = "dict list"

definition heap_alloc :: "heap \<Rightarrow> dict \<Rightarrow> heap \<times> addr" where
  "heap_alloc h d = (h @ [d], length h)"

definition heap_setitem :: "heap \<Rightarrow> addr \<Rightarrow> string \<Rightarrow> json \<Rightarrow> heap" where
  "heap_setitem h a k v = h[a := dict_setitem (h ! a) k v]"

definition insert_at_position_heap :: "heap \<Rightarrow> addr \<Rightarrow> string \<Rightarrow> json \<Rightarrow> nat \<Rightarrow> heap \<times> addr" where
  "insert_at_position_heap h d key val position =
     (let items = h ! d;
          items = list_insert items position (key, val)
      in heap_alloc h (dict_of_items items))"

definition convert_to_1_0_heap :: "heap \<Rightarrow> addr \<Rightarrow> heap \<times> (py_error + addr)" where
  "convert_to_1_0_heap h old_json =
     (let inner_size_probs = dict_get (h ! old_json) ''inner_size_probs'' (JArr []);
          outer_margin_probs = dict_get (h ! old_json) ''outer_margin_probs'' (JArr []);
          shift_weights = dict_get (h ! old_json) ''shift_weights'' (JArr [])
      in case normalize_weights shift_weights of
           Inl e \<Rightarrow> (h, Inl e)
         | Inr shift_weights \<Rightarrow>
             (let (h, new_json) = heap_alloc h (h ! old_json)
              in case table_of_pairs inner_size_probs of
                   Inl e \<Rightarrow> (h, Inl e)
                 | Inr inner \<Rightarrow>
                     (let h = heap_setitem h new_json ''inner_size_probs'' inner
                      in case table_of_pairs outer_margin_probs of
                           Inl e \<Rightarrow> (h, Inl e)
                         | Inr outer \<Rightarrow>
                             (let h = heap_setitem h new_json ''outer_margin_probs'' outer;
                                  h = heap_setitem h new_json ''shift_weights''
                                     (JObj [(''values'', JNull), (''probs'', JArr shift_weights)]);
                                  (h, new_json) =
                                     insert_at_position_heap h new_json ''version'' (JStr ''1.0'') 2
                              in (h, Inr new_json)))))"

subsection \<open>Files: the body of the loop in \<^verbatim>\<open>main\<close>\<close>

text \<open>
  A file is modelled by what \<^verbatim>\<open>json.load\<close> makes of it: a document, or a parse error.
  \<^verbatim>\<open>os.rename\<close> is the operating system's: Python documents that on Windows an existing
  destination always raises FileExistsError, and that on Unix an existing destination
  file is replaced silently. Directories and permissions are outside the model. Each
  change of the file system is recorded, in order, in a trace.
\<close>

type_synonym path = string

datatype file_content = Doc json | Malformed

datatype os_kind = Posix | Windows

datatype event = Renamed path path | Written path

record world =
  files :: "path \<Rightarrow> file_content option"
  trace :: "event list"

definition load_json :: "(path \<Rightarrow> file_content option) \<Rightarrow> path \<Rightarrow> py_error + json" where
  "load_json fs p =
     (case fs p of
        None \<Rightarrow> Inl FileNotFoundError
      | Some Malformed \<Rightarrow> Inl JSONDecodeError
      | Some (Doc j) \<Rightarrow> Inr j)"

definition os_rename ::
  "os_kind \<Rightarrow> (path \<Rightarrow> file_content option) \<Rightarrow> path \<Rightarrow> path \<Rightarrow> py_error + (path \<Rightarrow> file_content option)" where
  "os_rename os fs src dst =
     (case fs src of
        None \<Rightarrow> Inl FileNotFoundError
      | Some f \<Rightarrow>
          if os = Windows \<and> fs dst \<noteq> None then Inl FileExistsError
          else Inr ((fs(src := None))(dst \<mapsto> f)))"

text \<open>\<^verbatim>\<open>convert_to_1_0(config)\<close> on whatever was parsed: only a dictionary has \<^verbatim>\<open>.get\<close>.\<close>

definition convert_config :: "json \<Rightarrow> py_error + dict" where
  "convert_config config =
     (case config of JObj d \<Rightarrow> convert_to_1_0 d | _ \<Rightarrow> Inl AttributeError)"

definition migrate_file :: "os_kind \<Rightarrow> world \<Rightarrow> path \<Rightarrow> world \<times> (py_error + unit)" where
  "migrate_file os w path =
     (case load_json (files w) path of
        Inl e \<Rightarrow> (w, Inl e)
      | Inr config \<Rightarrow>
          (case convert_config config of
             Inl e \<Rightarrow> (w, Inl e)
           | Inr new_config \<Rightarrow>
               (let backup_path = path @ ''.bak''
                in case os_rename os (files w) path backup_path of
                     Inl e \<Rightarrow> (w, Inl e)
                   | Inr fs \<Rightarrow>
                       (let w = w\<lparr>files := fs, trace := trace w @ [Renamed path backup_path]\<rparr>;
                            w = w\<lparr>files := (files w)(path \<mapsto> Doc (JObj new_config)),
                                  trace := trace w @ [Written path]\<rparr>
                        in (w, Inr ())))))"

fun migrate_all :: "os_kind \<Rightarrow> world \<Rightarrow> path list \<Rightarrow> world \<times> (py_error + unit)" where
  "migrate_all os w [] = (w, Inr ())"
| "migrate_all os w (p # ps) =
     (case migrate_file os w p of
        (w', Inl e) \<Rightarrow> (w', Inl e)
      | (w', Inr _) \<Rightarrow> migrate_all os w' ps)"

definition main :: "os_kind \<Rightarrow> world \<Rightarrow> string list \<Rightarrow> world \<times> (py_error + unit)" where
  "main os w argv =
     (if length argv < 2 then (w, Inl (SystemExit 1)) else migrate_all os w (tl argv))"

section \<open>The formula script\<close>

text \<open>
  \<^verbatim>\<open>int(x)\<close> truncates towards zero; \<^verbatim>\<open>range(n)\<close> is empty for \<open>n \<le> 0\<close>; \<^verbatim>\<open>//\<close> on
  integers rounds down, as \<open>div\<close> does. The grid size is an integer, and \<^verbatim>\<open>/\<close> is exact.
\<close>

definition py_int :: "rat \<Rightarrow> int" where
  "py_int q = (if 0 \<le> q then \<lfloor>q\<rfloor> else \<lceil>q\<rceil>)"

definition py_range :: "int \<Rightarrow> int list" where
  "py_range n = [0..n - 1]"

definition get_max_radii :: "int \<Rightarrow> rat list" where
  "get_max_radii sz =
     (let center = (of_int sz - 1) / 2;
          max_corner = py_int ((of_int sz / 2) - 1)
      in map (\<lambda>corner_depth. center\<^sup>2 + (center - of_int corner_depth)\<^sup>2)
           (py_range (max_corner + 1)))"

definition get_dist :: "int \<Rightarrow> int \<Rightarrow> rat" where
  "get_dist sz corner_depth =
     (let center = (of_int sz - 1) / 2
      in center\<^sup>2 + (center - of_int corner_depth)\<^sup>2)"

definition get_max_radii_simpl :: "int \<Rightarrow> rat list" where
  "get_max_radii_simpl sz = map (\<lambda>corn_depth. get_dist sz corn_depth) (py_range (sz div 2))"

definition totally_cursed :: "int \<Rightarrow> rat list" where
  "totally_cursed sz =
     map (\<lambda>corn_depth. ((of_int sz - 1) / 2)\<^sup>2 + ((of_int sz - 1) / 2 - of_int corn_depth)\<^sup>2)
       (py_range (sz div 2))"

definition wtf_is_going_on :: "rat \<Rightarrow> int \<Rightarrow> rat" where
  "wtf_is_going_on s d = ((s - 1)\<^sup>2 / 2) - ((s - 1) * of_int d) + (of_int d)\<^sup>2"

definition even_more_cursed :: "int \<Rightarrow> rat list" where
  "even_more_cursed sz = map (\<lambda>corn_depth. wtf_is_going_on (of_int sz) corn_depth) (py_range (sz div 2))"

section \<open>Vocabulary of the properties\<close>



text \<open>A legacy \<open>(value, probability)\<close> pair: a list of exactly two elements.\<close>

definition is_pair :: "json \<Rightarrow> bool" where
  "is_pair j = (case j of JArr xs \<Rightarrow> length xs = 2 | _ \<Rightarrow> False)"

text \<open>The dictionary \<^verbatim>\<open>new_json\<close> after the three assignments, before the version is inserted.\<close>

abbreviation replaced_fields :: "dict \<Rightarrow> json \<Rightarrow> json \<Rightarrow> json list \<Rightarrow> dict" where
  "replaced_fields d inner outer sw \<equiv>
     dict_setitem (dict_setitem (dict_setitem d ''inner_size_probs'' inner)
         ''outer_margin_probs'' outer)
       ''shift_weights'' (JObj [(''values'', JNull), (''probs'', JArr sw)])"

section \<open>Example documents\<close>

text \<open>The legacy configuration of the specification's example, and its migration.\<close>

definition example_legacy :: dict where
  "example_legacy =
     [(''a'', JInt 1), (''b'', JInt 2),
      (''inner_size_probs'', JArr [JArr [JInt 0, JFloat (1/2)], JArr [JInt 1, JFloat (1/2)]]),
      (''outer_margin_probs'', JArr []),
      (''shift_weights'', JArr [JInt 1, JInt 3])]"

definition example_migrated :: dict where
  "example_migrated =
     [(''a'', JInt 1), (''b'', JInt 2), (''version'', JStr ''1.0''),
      (''inner_size_probs'',
         JObj [(''values'', JArr [JInt 0, JInt 1]), (''probs'', JArr [JFloat (1/2), JFloat (1/2)])]),
      (''outer_margin_probs'', JObj [(''values'', JArr []), (''probs'', JArr [])]),
      (''shift_weights'', JObj [(''values'', JNull), (''probs'', JArr [JFloat (1/4), JFloat (3/4)])])]"

text \<open>The tables the conversion makes of an empty or absent field.\<close>

definition empty_table :: json where
  "empty_table = JObj [(''values'', JArr []), (''probs'', JArr [])]"

definition empty_weights :: json where
  "empty_weights = JObj [(''values'', JNull), (''probs'', JArr [])]"





section \<open>Dictionaries: basic facts\<close>

lemma map_of_dict_setitem: "map_of (dict_setitem d k v) = (map_of d)(k \<mapsto> v)"
  by (induction d k v rule: dict_setitem.induct) (auto simp: fun_eq_iff)

lemma keys_dict_setitem:
  "map fst (dict_setitem d k v) = (if k \<in> set (map fst d) then map fst d else map fst d @ [k])"
  by (induction d k v rule: dict_setitem.induct) auto

lemma keyset_dict_setitem: "fst ` set (dict_setitem d k v) = insert k (fst ` set d)"
  by (induction d k v rule: dict_setitem.induct) auto

lemma distinct_dict_setitem:
  "distinct (map fst d) \<Longrightarrow> distinct (map fst (dict_setitem d k v))"
  by (simp add: keys_dict_setitem)

lemma length_dict_setitem: "length d \<le> length (dict_setitem d k v)"
  by (induction d k v rule: dict_setitem.induct) auto

lemma take_dict_setitem_old:
  "k \<in> set (map fst d) \<Longrightarrow> map fst (dict_setitem d k v) = map fst d"
  by (simp add: keys_dict_setitem)

lemma dict_setitem_new: "k \<notin> set (map fst d) \<Longrightarrow> dict_setitem d k v = d @ [(k, v)]"
  by (induction d k v rule: dict_setitem.induct) auto

lemma foldl_setitem_fresh:
  "distinct (map fst xs) \<Longrightarrow> set (map fst xs) \<inter> set (map fst acc) = {} \<Longrightarrow>
   foldl (\<lambda>d kv. dict_setitem d (fst kv) (snd kv)) acc xs = acc @ xs"
proof (induction xs arbitrary: acc)
  case Nil
  then show ?case by simp
next
  case (Cons x xs)
  have "dict_setitem acc (fst x) (snd x) = acc @ [x]"
    using Cons.prems(2) by (simp add: dict_setitem_new)
  moreover have "set (map fst xs) \<inter> set (map fst (acc @ [x])) = {}"
    using Cons.prems by auto
  ultimately show ?case
    using Cons.IH [of "acc @ [x]"] Cons.prems(1) by simp
qed

lemma dict_of_items_distinct: "distinct (map fst xs) \<Longrightarrow> dict_of_items xs = xs"
  using foldl_setitem_fresh [of xs "[]"] by (simp add: dict_of_items_def)

lemma map_of_foldl_setitem:
  "map_of (foldl (\<lambda>d kv. dict_setitem d (fst kv) (snd kv)) acc xs) = map_of acc ++ map_of (rev xs)"
  by (induction xs arbitrary: acc) (auto simp: map_of_dict_setitem fun_eq_iff map_add_def split: option.splits)

lemma keys_foldl_setitem:
  "distinct (map fst xs) \<Longrightarrow>
   map fst (foldl (\<lambda>d kv. dict_setitem d (fst kv) (snd kv)) acc xs) =
     map fst acc @ filter (\<lambda>k. k \<notin> set (map fst acc)) (map fst xs)"
proof (induction xs arbitrary: acc)
  case Nil
  then show ?case by simp
next
  case (Cons x xs)
  show ?case
  proof (cases "fst x \<in> set (map fst acc)")
    case True
    then have "insert (fst x) (fst ` set acc) = fst ` set acc" by auto
    then show ?thesis using Cons True by (simp add: keys_dict_setitem keyset_dict_setitem)
  next
    case False
    have "filter (\<lambda>k. k \<noteq> fst x \<and> k \<notin> set (map fst acc)) (map fst xs) =
          filter (\<lambda>k. k \<notin> set (map fst acc)) (map fst xs)"
      using Cons.prems by (intro filter_cong) (auto simp: image_iff)
    then show ?thesis using Cons False by (simp add: keys_dict_setitem keyset_dict_setitem)
  qed
qed

lemma map_of_rev_distinct: "distinct (map fst xs) \<Longrightarrow> map_of (rev xs) = map_of xs"
  by (metis distinct_rev map_of_inject_set rev_map set_rev)

lemma distinct_foldl_setitem:
  "distinct (map fst acc) \<Longrightarrow>
   distinct (map fst (foldl (\<lambda>d kv. dict_setitem d (fst kv) (snd kv)) acc xs))"
  by (induction xs arbitrary: acc) (simp_all add: distinct_dict_setitem)

lemma distinct_dict_of_items: "distinct (map fst (dict_of_items xs))"
  by (simp add: dict_of_items_def distinct_foldl_setitem)

lemma map_of_dict_of_items: "map_of (dict_of_items xs) = map_of (rev xs)"
  by (simp add: dict_of_items_def map_of_foldl_setitem)

lemma map_of_rev_skip:
  "k \<noteq> key \<Longrightarrow> map_of (rev (xs @ (key, val) # ys)) k = map_of (rev (xs @ ys)) k"
  by (simp add: map_add_def split: option.splits)

lemma map_of_insert_at_position_other:
  assumes "distinct (map fst n)" and "k \<noteq> key"
  shows "map_of (insert_at_position n key val pos) k = map_of n k"
proof -
  have "map_of (insert_at_position n key val pos) k =
        map_of (rev (take pos n @ (key, val) # drop pos n)) k"
    by (simp add: insert_at_position_def list_insert_def map_of_dict_of_items)
  also have "\<dots> = map_of (rev (take pos n @ drop pos n)) k"
    using assms(2) by (rule map_of_rev_skip)
  also have "\<dots> = map_of n k"
    using assms(1) by (simp add: map_of_rev_distinct)
  finally show ?thesis .
qed

section \<open>Comprehensions and arithmetic\<close>


lemma map_err_length: "map_err f xs = Inr ys \<Longrightarrow> length ys = length xs"
  by (induction xs arbitrary: ys) (auto split: sum.splits)

lemma is_pairD: "is_pair j \<Longrightarrow> \<exists>v p. j = JArr [v, p]"
  by (cases j) (auto simp: is_pair_def length_Suc_conv numeral_2_eq_2)

lemma table_of_pairs_pairs:
  assumes "\<forall>x \<in> set xs. is_pair x"
  shows "\<exists>vs ps. table_of_pairs (JArr xs) = Inr (JObj [(''values'', JArr vs), (''probs'', JArr ps)]) \<and>
           length vs = length ps \<and> map2 (\<lambda>v p. JArr [v, p]) vs ps = xs"
  using assms
proof (induction xs)
  case Nil
  then show ?case by (simp add: table_of_pairs_def column_def)
next
  case (Cons x xs)
  from Cons.prems have "is_pair x" by simp
  then obtain v p where x: "x = JArr [v, p]" using is_pairD by blast
  from Cons.prems have "\<forall>x \<in> set xs. is_pair x" by simp
  from Cons.IH [OF this] obtain vs ps where
    "table_of_pairs (JArr xs) = Inr (JObj [(''values'', JArr vs), (''probs'', JArr ps)])"
    "length vs = length ps" "map2 (\<lambda>v p. JArr [v, p]) vs ps = xs"
    by blast
  then have "table_of_pairs (JArr (x # xs)) =
      Inr (JObj [(''values'', JArr (v # vs)), (''probs'', JArr (p # ps))]) \<and>
      length (v # vs) = length (p # ps) \<and> map2 (\<lambda>v p. JArr [v, p]) (v # vs) (p # ps) = x # xs"
    using x by (auto simp: table_of_pairs_def column_def split: sum.splits)
  then show ?case by (intro exI [where x = "v # vs"] exI [where x = "p # ps"])
qed







section \<open>The shape of the result of \<open>convert_to_1_0\<close>\<close>

lemma convert_to_1_0_InrD:
  assumes "convert_to_1_0 d = Inr out"
  shows "\<exists>sw inner outer.
     normalize_weights (dict_get d ''shift_weights'' (JArr [])) = Inr sw \<and>
     table_of_pairs (dict_get d ''inner_size_probs'' (JArr [])) = Inr inner \<and>
     table_of_pairs (dict_get d ''outer_margin_probs'' (JArr [])) = Inr outer \<and>
     out = insert_at_position
             (dict_setitem (dict_setitem (dict_setitem d ''inner_size_probs'' inner)
                 ''outer_margin_probs'' outer)
               ''shift_weights'' (JObj [(''values'', JNull), (''probs'', JArr sw)]))
             ''version'' (JStr ''1.0'') 2"
  using assms by (auto simp: convert_to_1_0_def Let_def split: sum.splits)

lemma convert_to_1_0_InlD:
  assumes "convert_to_1_0 d = Inl e"
  shows "normalize_weights (dict_get d ''shift_weights'' (JArr [])) = Inl e \<or>
         table_of_pairs (dict_get d ''inner_size_probs'' (JArr [])) = Inl e \<or>
         table_of_pairs (dict_get d ''outer_margin_probs'' (JArr [])) = Inl e"
  using assms by (auto simp: convert_to_1_0_def Let_def split: sum.splits)

lemma map_of_replaced_fields:
  "map_of (replaced_fields d inner outer sw) =
     (map_of d)(''inner_size_probs'' \<mapsto> inner, ''outer_margin_probs'' \<mapsto> outer,
        ''shift_weights'' \<mapsto> JObj [(''values'', JNull), (''probs'', JArr sw)])"
  by (simp add: map_of_dict_setitem)

lemma distinct_replaced_fields:
  "distinct (map fst d) \<Longrightarrow> distinct (map fst (replaced_fields d inner outer sw))"
  by (simp add: distinct_dict_setitem)

lemma keys_replaced_fields:
  "map fst (replaced_fields d inner outer sw) =
     map fst d @ filter (\<lambda>k. k \<notin> set (map fst d))
        [''inner_size_probs'', ''outer_margin_probs'', ''shift_weights'']"
  by (simp add: keys_dict_setitem keyset_dict_setitem)

lemma length_replaced_fields: "3 \<le> length (replaced_fields d inner outer sw)"
proof -
  let ?n = "replaced_fields d inner outer sw"
  have "{''inner_size_probs'', ''outer_margin_probs'', ''shift_weights''} \<subseteq> set (map fst ?n)"
    by (simp add: keyset_dict_setitem)
  then have "card {''inner_size_probs'', ''outer_margin_probs'', ''shift_weights''} \<le> card (set (map fst ?n))"
    by (intro card_mono) auto
  moreover have "card {''inner_size_probs'', ''outer_margin_probs'', ''shift_weights''} = 3"
    by simp
  moreover have "card (set (map fst ?n)) \<le> length ?n"
    using card_length [of "map fst ?n"] by simp
  ultimately show ?thesis by linarith
qed

lemmas convert_defs =
  convert_to_1_0_def dict_get_def normalize_weights_def py_sum_def py_add_def py_truediv_def
  table_of_pairs_def column_def insert_at_position_def list_insert_def dict_of_items_def Let_def

lemma example_converts: "convert_to_1_0 example_legacy = Inr example_migrated"
  by (simp add: example_legacy_def example_migrated_def convert_defs)

lemma convert_to_1_0_fields:
  assumes "distinct (map fst d)" and "convert_to_1_0 d = Inr out"
  shows "\<exists>sw inner outer.
     normalize_weights (dict_get d ''shift_weights'' (JArr [])) = Inr sw \<and>
     table_of_pairs (dict_get d ''inner_size_probs'' (JArr [])) = Inr inner \<and>
     table_of_pairs (dict_get d ''outer_margin_probs'' (JArr [])) = Inr outer \<and>
     map_of out ''inner_size_probs'' = Some inner \<and>
     map_of out ''outer_margin_probs'' = Some outer \<and>
     map_of out ''shift_weights'' = Some (JObj [(''values'', JNull), (''probs'', JArr sw)])"
proof -
  from convert_to_1_0_InrD [OF assms(2)] obtain sw inner outer where
    sw: "normalize_weights (dict_get d ''shift_weights'' (JArr [])) = Inr sw" and
    inner: "table_of_pairs (dict_get d ''inner_size_probs'' (JArr [])) = Inr inner" and
    outer: "table_of_pairs (dict_get d ''outer_margin_probs'' (JArr [])) = Inr outer" and
    out: "out = insert_at_position (replaced_fields d inner outer sw) ''version'' (JStr ''1.0'') 2"
    by blast
  have dist: "distinct (map fst (replaced_fields d inner outer sw))"
    using assms(1) by (rule distinct_replaced_fields)
  have "map_of out k = map_of (replaced_fields d inner outer sw) k" if "k \<noteq> ''version''" for k
    unfolding out using dist that by (rule map_of_insert_at_position_other)
  then have "map_of out ''inner_size_probs'' = Some inner"
    "map_of out ''outer_margin_probs'' = Some outer"
    "map_of out ''shift_weights'' = Some (JObj [(''values'', JNull), (''probs'', JArr sw)])"
    by (simp_all add: map_of_replaced_fields)
  with sw inner outer show ?thesis by blast
qed

section \<open>Claims about \<open>convert_to_1_0\<close>\<close>

text \<open>
  C1. When the entries of \<^verbatim>\<open>inner_size_probs\<close> and \<^verbatim>\<open>outer_margin_probs\<close> are two-element
  pairs, the conversion can only fail in the normalisation of \<^verbatim>\<open>shift_weights\<close>;
  otherwise the result holds, for each of the two fields, a \<^verbatim>\<open>values\<close> list and a
  \<^verbatim>\<open>probs\<close> list of equal length, and zipping them gives back the original pairs.
\<close>

theorem pair_tables_zip_back:
  assumes "distinct (map fst d)"
    and "dict_get d ''inner_size_probs'' (JArr []) = JArr xs" and "\<forall>x \<in> set xs. is_pair x"
    and "dict_get d ''outer_margin_probs'' (JArr []) = JArr ys" and "\<forall>y \<in> set ys. is_pair y"
  shows "case convert_to_1_0 d of
           Inl e \<Rightarrow> normalize_weights (dict_get d ''shift_weights'' (JArr [])) = Inl e
         | Inr out \<Rightarrow>
             (\<exists>vs ps. map_of out ''inner_size_probs'' =
                         Some (JObj [(''values'', JArr vs), (''probs'', JArr ps)]) \<and>
                       length vs = length ps \<and> map2 (\<lambda>v p. JArr [v, p]) vs ps = xs) \<and>
             (\<exists>vs ps. map_of out ''outer_margin_probs'' =
                         Some (JObj [(''values'', JArr vs), (''probs'', JArr ps)]) \<and>
                       length vs = length ps \<and> map2 (\<lambda>v p. JArr [v, p]) vs ps = ys)"
proof -
  obtain vs ps where inner:
    "table_of_pairs (dict_get d ''inner_size_probs'' (JArr [])) =
       Inr (JObj [(''values'', JArr vs), (''probs'', JArr ps)])"
    "length vs = length ps" "map2 (\<lambda>v p. JArr [v, p]) vs ps = xs"
    using table_of_pairs_pairs [OF assms(3)] assms(2) by auto
  obtain vs' ps' where outer:
    "table_of_pairs (dict_get d ''outer_margin_probs'' (JArr [])) =
       Inr (JObj [(''values'', JArr vs'), (''probs'', JArr ps')])"
    "length vs' = length ps'" "map2 (\<lambda>v p. JArr [v, p]) vs' ps' = ys"
    using table_of_pairs_pairs [OF assms(5)] assms(4) by auto
  show ?thesis
  proof (cases "convert_to_1_0 d")
    case (Inl e)
    then show ?thesis using convert_to_1_0_InlD [OF Inl] inner(1) outer(1) by simp
  next
    case (Inr out)
    from convert_to_1_0_fields [OF assms(1) Inr] inner(1) outer(1)
    have "map_of out ''inner_size_probs'' = Some (JObj [(''values'', JArr vs), (''probs'', JArr ps)])"
      "map_of out ''outer_margin_probs'' = Some (JObj [(''values'', JArr vs'), (''probs'', JArr ps')])"
      by auto
    then show ?thesis using Inr inner(2,3) outer(2,3) by auto
  qed
qed

theorem pair_tables_zip_back_witness:
  "is_pair (JArr [JInt 0, JFloat (1/2)]) \<and> is_pair (JArr [JInt 1, JFloat (1/2)]) \<and>
   (\<exists>out vs ps. convert_to_1_0 example_legacy = Inr out \<and>
      map_of out ''inner_size_probs'' = Some (JObj [(''values'', JArr vs), (''probs'', JArr ps)]) \<and>
      length vs = length ps \<and>
      map2 (\<lambda>v p. JArr [v, p]) vs ps = [JArr [JInt 0, JFloat (1/2)], JArr [JInt 1, JFloat (1/2)]])"
  using pair_tables_zip_back [of example_legacy
      "[JArr [JInt 0, JFloat (1/2)], JArr [JInt 1, JFloat (1/2)]]" "[]"]
  by (simp add: example_converts is_pair_def) (simp add: example_legacy_def dict_get_def)









section \<open>Where the version lands\<close>

lemma distinct_take_drop_keys:
  assumes "distinct (map fst n)"
  shows "distinct (map fst (take pos n))" and "distinct (map fst (drop pos n))"
    and "fst ` set (take pos n) \<inter> fst ` set (drop pos n) = {}"
proof -
  have "distinct (map fst (take pos n) @ map fst (drop pos n))"
    using assms by (simp flip: map_append)
  then show "distinct (map fst (take pos n))" "distinct (map fst (drop pos n))"
    "fst ` set (take pos n) \<inter> fst ` set (drop pos n) = {}"
    by (simp_all only: distinct_append set_map)
qed

lemma keys_insert_at_position:
  assumes "distinct (map fst n)" and "key \<notin> fst ` set (take pos n)"
  shows "map fst (insert_at_position n key val pos) =
           map fst (take pos n) @ key # filter (\<lambda>k. k \<noteq> key) (map fst (drop pos n))"
proof -
  let ?f = "\<lambda>d kv. dict_setitem d (fst kv) (snd kv)"
  let ?A = "take pos n @ [(key, val)]"
  note td = distinct_take_drop_keys [OF assms(1), of pos]
  have "distinct (map fst ?A)" using td(1) assms(2) by simp
  then have A: "foldl ?f [] ?A = ?A"
    using dict_of_items_distinct [of ?A] by (simp add: dict_of_items_def)
  have "insert_at_position n key val pos = foldl ?f (foldl ?f [] ?A) (drop pos n)"
    by (simp add: insert_at_position_def list_insert_def dict_of_items_def)
  then have "map fst (insert_at_position n key val pos) =
        map fst ?A @ filter (\<lambda>k. k \<notin> set (map fst ?A)) (map fst (drop pos n))"
    using keys_foldl_setitem [OF td(2), of ?A] A by simp
  moreover have "filter (\<lambda>k. k \<notin> set (map fst ?A)) (map fst (drop pos n)) =
        filter (\<lambda>k. k \<noteq> key) (map fst (drop pos n))"
    using td(3) by (intro filter_cong) auto
  ultimately show ?thesis by simp
qed

lemma map_of_insert_at_position_key:
  assumes "distinct (map fst n)" and "key \<notin> fst ` set (take pos n)"
  shows "map_of (insert_at_position n key val pos) key =
           (case map_of n key of None \<Rightarrow> Some val | Some v \<Rightarrow> Some v)"
proof -
  note td = distinct_take_drop_keys [OF assms(1), of pos]
  have none: "map_of (rev (take pos n)) key = None" "map_of (take pos n) key = None"
    using assms(2) by (simp_all add: map_of_eq_None_iff)
  have "map_of n key = map_of (take pos n @ drop pos n) key" by simp
  also have "\<dots> = map_of (drop pos n) key"
    unfolding map_of_append using none(2) by (simp add: map_add_def)
  finally have n: "map_of n key = map_of (drop pos n) key" .
  have "map_of (insert_at_position n key val pos) key =
        map_of (rev (drop pos n) @ (key, val) # rev (take pos n)) key"
    by (simp add: insert_at_position_def list_insert_def map_of_dict_of_items)
  also have "\<dots> = (case map_of (rev (drop pos n)) key of None \<Rightarrow> Some val | Some v \<Rightarrow> Some v)"
    unfolding map_of_append by (simp add: map_add_def split: option.splits)
  also have "map_of (rev (drop pos n)) = map_of (drop pos n)"
    using td(2) by (rule map_of_rev_distinct)
  finally show ?thesis using n by simp
qed

lemma map_of_insert_at_position_early:
  assumes "distinct (map fst n)" and "key \<in> fst ` set (take pos n)"
  shows "map_of (insert_at_position n key val pos) key = Some val"
proof -
  note td = distinct_take_drop_keys [OF assms(1), of pos]
  have "map_of (insert_at_position n key val pos) key =
        map_of (rev (drop pos n) @ (key, val) # rev (take pos n)) key"
    by (simp add: insert_at_position_def list_insert_def map_of_dict_of_items)
  moreover have "map_of (rev (drop pos n)) key = None"
  proof -
    have "key \<notin> fst ` set (drop pos n)" using td(3) assms(2) by blast
    then show ?thesis by (simp add: map_of_eq_None_iff)
  qed
  ultimately show ?thesis unfolding map_of_append by (simp add: map_add_def)
qed

lemma version_in_first_two:
  "''version'' \<in> set (take 2 (map fst (replaced_fields d inner outer sw))) \<longleftrightarrow>
   ''version'' \<in> set (take 2 (map fst d))"
proof -
  let ?extra = "filter (\<lambda>k. k \<notin> set (map fst d))
        [''inner_size_probs'', ''outer_margin_probs'', ''shift_weights'']"
  have "''version'' \<notin> set ?extra" by auto
  then have "''version'' \<notin> set (take (2 - length d) ?extra)"
    using in_set_takeD by fast
  then show ?thesis by (simp add: keys_replaced_fields)
qed

lemma map_of_nth_distinct:
  "distinct (map fst xs) \<Longrightarrow> i < length xs \<Longrightarrow> map_of xs (fst (xs ! i)) = Some (snd (xs ! i))"
  by simp

lemma convert_to_1_0_version:
  assumes "distinct (map fst d)" and "convert_to_1_0 d = Inr out"
    and "''version'' \<notin> set (take 2 (map fst d))"
  shows "2 < length out" and "fst (out ! 2) = ''version''"
    and "length (filter (\<lambda>k. k = ''version'') (map fst out)) = 1"
    and "map_of out ''version'' = (case map_of d ''version'' of None \<Rightarrow> Some (JStr ''1.0'') | Some v \<Rightarrow> Some v)"
    and "''version'' \<notin> set (map fst d) \<Longrightarrow>
         filter (\<lambda>k. k \<noteq> ''version'') (map fst out) =
           map fst d @ filter (\<lambda>k. k \<notin> set (map fst d))
             [''inner_size_probs'', ''outer_margin_probs'', ''shift_weights'']"
proof -
  from convert_to_1_0_InrD [OF assms(2)] obtain sw inner outer where
    out: "out = insert_at_position (replaced_fields d inner outer sw) ''version'' (JStr ''1.0'') 2"
    by blast
  let ?n = "replaced_fields d inner outer sw"
  have dist: "distinct (map fst ?n)" using assms(1) by (rule distinct_replaced_fields)
  have len: "3 \<le> length ?n" by (rule length_replaced_fields)
  have "''version'' \<notin> set (take 2 (map fst ?n))"
    using assms(3) version_in_first_two by blast
  then have early: "''version'' \<notin> fst ` set (take 2 ?n)" by (simp add: take_map)
  have keys: "map fst out =
      map fst (take 2 ?n) @ ''version'' # filter (\<lambda>k. k \<noteq> ''version'') (map fst (drop 2 ?n))"
    unfolding out using dist early by (rule keys_insert_at_position)
  have l2: "length (map fst (take 2 ?n)) = 2" using len by simp
  have "length (map fst out) \<ge> 3" unfolding keys using l2 by simp
  then show "2 < length out" by simp
  then have "fst (out ! 2) = map fst out ! 2" by simp
  also have "\<dots> = ''version''" unfolding keys using l2 by (simp add: nth_append)
  finally show "fst (out ! 2) = ''version''" .
  have "filter (\<lambda>k. k = ''version'') (map fst (take 2 ?n)) = []"
    using early by (force simp: filter_empty_conv)
  then show "length (filter (\<lambda>k. k = ''version'') (map fst out)) = 1"
    unfolding keys by (simp add: filter_empty_conv)
  have "map_of ?n ''version'' = map_of d ''version''"
    by (simp add: map_of_replaced_fields)
  then show "map_of out ''version'' =
      (case map_of d ''version'' of None \<Rightarrow> Some (JStr ''1.0'') | Some v \<Rightarrow> Some v)"
    unfolding out using map_of_insert_at_position_key [OF dist early, of "JStr ''1.0''"] by simp
  show "filter (\<lambda>k. k \<noteq> ''version'') (map fst out) =
           map fst d @ filter (\<lambda>k. k \<notin> set (map fst d))
             [''inner_size_probs'', ''outer_margin_probs'', ''shift_weights'']"
    if "''version'' \<notin> set (map fst d)"
  proof -
    have nv: "''version'' \<notin> set (map fst ?n)"
      using that by (simp add: keyset_dict_setitem)
    have "filter (\<lambda>k. k \<noteq> ''version'') (map fst out) =
          filter (\<lambda>k. k \<noteq> ''version'') (map fst (take 2 ?n) @ map fst (drop 2 ?n))"
      unfolding keys by simp
    also have "\<dots> = filter (\<lambda>k. k \<noteq> ''version'') (map fst ?n)"
      by (simp flip: map_append)
    also have "\<dots> = map fst ?n"
      using nv by (simp only: filter_id_conv) force
    finally show ?thesis by (simp only: keys_replaced_fields)
  qed
qed

text \<open>
  C3, as stated, fails on a dictionary that already has a \<^verbatim>\<open>version\<close> key: placed first,
  the key stays first and \<^verbatim>\<open>outer_margin_probs\<close> is the third key of the result.
\<close>

theorem version_not_third_counterexample:
  "convert_to_1_0 [(''version'', JStr ''0.9'')] =
     Inr [(''version'', JStr ''1.0''), (''inner_size_probs'', empty_table),
          (''outer_margin_probs'', empty_table), (''shift_weights'', empty_weights)] \<and>
   fst (projr (convert_to_1_0 [(''version'', JStr ''0.9'')]) ! 2) = ''outer_margin_probs''"
  by (simp add: convert_defs empty_table_def empty_weights_def)

text \<open>
  C3, amended. For a dictionary without a \<^verbatim>\<open>version\<close> key, the result binds
  \<^verbatim>\<open>version\<close> to the string \<^verbatim>\<open>1.0\<close> at zero-based position 2, exactly once, and the other
  keys are those of the input in their order, followed by the probability fields the input
  lacked.
\<close>

theorem version_inserted_third:
  assumes "distinct (map fst d)" and "''version'' \<notin> set (map fst d)"
    and "convert_to_1_0 d = Inr out"
  shows "2 < length out \<and> out ! 2 = (''version'', JStr ''1.0'') \<and>
         length (filter (\<lambda>k. k = ''version'') (map fst out)) = 1 \<and>
         filter (\<lambda>k. k \<noteq> ''version'') (map fst out) =
           map fst d @ filter (\<lambda>k. k \<notin> set (map fst d))
             [''inner_size_probs'', ''outer_margin_probs'', ''shift_weights'']"
proof -
  have nt: "''version'' \<notin> set (take 2 (map fst d))"
    using assms(2) in_set_takeD by fast
  note v = convert_to_1_0_version [OF assms(1) assms(3) nt]
  have none: "map_of d ''version'' = None"
    using assms(2) by (simp add: map_of_eq_None_iff)
  have "distinct (map fst out)"
    using convert_to_1_0_InrD [OF assms(3)]
    by (auto simp: insert_at_position_def distinct_dict_of_items)
  then have "map_of out (fst (out ! 2)) = Some (snd (out ! 2))"
    using v(1) by (rule map_of_nth_distinct)
  then have "snd (out ! 2) = JStr ''1.0''" using v(2) v(4) none by simp
  then have "out ! 2 = (''version'', JStr ''1.0'')"
    using v(2) by (simp add: prod_eq_iff)
  then show ?thesis using v(1) v(3) v(5) [OF assms(2)] by simp
qed

theorem version_inserted_third_witness:
  "distinct (map fst example_legacy) \<and> ''version'' \<notin> set (map fst example_legacy) \<and>
   convert_to_1_0 example_legacy = Inr example_migrated \<and>
   2 < length example_migrated \<and> example_migrated ! 2 = (''version'', JStr ''1.0'') \<and>
   filter (\<lambda>k. k \<noteq> ''version'') (map fst example_migrated) = map fst example_legacy"
proof -
  have d: "distinct (map fst example_legacy)" and nv: "''version'' \<notin> set (map fst example_legacy)"
    by (simp_all add: example_legacy_def)
  from version_inserted_third [OF d nv example_converts]
  show ?thesis using d nv example_converts by (simp add: example_legacy_def)
qed

text \<open>
  C10. When the input has \<^verbatim>\<open>version\<close> at zero-based position 2 or later, bound to \<open>v\<close>,
  the result has \<^verbatim>\<open>version\<close> exactly once, at position 2, bound to \<open>v\<close> and not to the
  freshly inserted \<^verbatim>\<open>1.0\<close>.
\<close>

theorem version_kept_when_later:
  assumes "distinct (map fst d)" and "2 \<le> i" and "i < length d"
    and "d ! i = (''version'', v)" and "convert_to_1_0 d = Inr out"
  shows "2 < length out \<and> out ! 2 = (''version'', v) \<and>
         length (filter (\<lambda>k. k = ''version'') (map fst out)) = 1 \<and>
         map_of out ''version'' = Some v"
proof -
  have "(''version'', v) \<in> set d" using assms(3,4) nth_mem by fastforce
  then have some: "map_of d ''version'' = Some v" using assms(1) by simp
  have nt: "''version'' \<notin> set (take 2 (map fst d))"
  proof
    assume "''version'' \<in> set (take 2 (map fst d))"
    then obtain j where j: "j < 2" "j < length d" "map fst d ! j = ''version''"
      by (auto simp: in_set_conv_nth)
    moreover have "map fst d ! i = ''version''" using assms(3,4) by simp
    ultimately have "i = j"
      using assms(1,3) by (metis length_map nth_eq_iff_index_eq)
    then show False using j(1) assms(2) by simp
  qed
  note ver = convert_to_1_0_version [OF assms(1) assms(5) nt]
  have "distinct (map fst out)"
    using convert_to_1_0_InrD [OF assms(5)]
    by (auto simp: insert_at_position_def distinct_dict_of_items)
  then have "map_of out (fst (out ! 2)) = Some (snd (out ! 2))"
    using ver(1) by (rule map_of_nth_distinct)
  then have "snd (out ! 2) = v" using ver(2) ver(4) some by simp
  then have "out ! 2 = (''version'', v)"
    using ver(2) by (simp add: prod_eq_iff)
  then show ?thesis using ver(1) ver(3) ver(4) some by simp
qed

theorem version_kept_when_later_witness:
  "distinct (map fst [(''a'', JInt 1), (''b'', JInt 2), (''version'', JStr ''0.9'')]) \<and>
   convert_to_1_0 [(''a'', JInt 1), (''b'', JInt 2), (''version'', JStr ''0.9'')] =
     Inr [(''a'', JInt 1), (''b'', JInt 2), (''version'', JStr ''0.9''),
          (''inner_size_probs'', empty_table), (''outer_margin_probs'', empty_table),
          (''shift_weights'', empty_weights)] \<and>
   projr (convert_to_1_0 [(''a'', JInt 1), (''b'', JInt 2), (''version'', JStr ''0.9'')]) ! 2 =
     (''version'', JStr ''0.9'')"
proof -
  let ?d = "[(''a'', JInt 1), (''b'', JInt 2), (''version'', JStr ''0.9'')]"
  let ?out = "[(''a'', JInt 1), (''b'', JInt 2), (''version'', JStr ''0.9''),
          (''inner_size_probs'', empty_table), (''outer_margin_probs'', empty_table),
          (''shift_weights'', empty_weights)]"
  have d: "distinct (map fst ?d)" by simp
  have c: "convert_to_1_0 ?d = Inr ?out"
    by (simp add: convert_defs empty_table_def empty_weights_def)
  from version_kept_when_later [OF d _ _ _ c, of 2 "JStr ''0.9''"]
  have "?out ! 2 = (''version'', JStr ''0.9'')" by simp
  then show ?thesis using d c by simp
qed

text \<open>
  C6, as stated, fails for the key \<^verbatim>\<open>version\<close> at position 0 or 1 of the input: the
  inserted pair comes later in the item list and overwrites its value.
\<close>

theorem early_version_overwritten_counterexample:
  "map_of [(''a'', JInt 1), (''version'', JStr ''0.9'')] ''version'' = Some (JStr ''0.9'') \<and>
   convert_to_1_0 [(''a'', JInt 1), (''version'', JStr ''0.9'')] =
     Inr [(''a'', JInt 1), (''version'', JStr ''1.0''), (''inner_size_probs'', empty_table),
          (''outer_margin_probs'', empty_table), (''shift_weights'', empty_weights)] \<and>
   map_of (projr (convert_to_1_0 [(''a'', JInt 1), (''version'', JStr ''0.9'')])) ''version'' =
     Some (JStr ''1.0'')"
  by (simp add: convert_defs empty_table_def empty_weights_def)

text \<open>
  C6, amended. Every key of the input other than the three probability fields is bound in
  the result to the value it had, except \<^verbatim>\<open>version\<close> at position 0 or 1 of the input,
  which is bound to the string \<^verbatim>\<open>1.0\<close>.
\<close>

theorem other_keys_unchanged:
  assumes "distinct (map fst d)" and "convert_to_1_0 d = Inr out"
    and "map_of d k = Some v"
    and "k \<notin> {''inner_size_probs'', ''outer_margin_probs'', ''shift_weights''}"
  shows "map_of out k =
           Some (if k = ''version'' \<and> ''version'' \<in> set (take 2 (map fst d)) then JStr ''1.0'' else v)"
proof -
  from convert_to_1_0_InrD [OF assms(2)] obtain sw inner outer where
    out: "out = insert_at_position (replaced_fields d inner outer sw) ''version'' (JStr ''1.0'') 2"
    by blast
  let ?n = "replaced_fields d inner outer sw"
  have dist: "distinct (map fst ?n)" using assms(1) by (rule distinct_replaced_fields)
  have n: "map_of ?n k = Some v" using assms(3,4) by (simp add: map_of_replaced_fields)
  show ?thesis
  proof (cases "k = ''version''")
    case False
    then have "map_of out k = map_of ?n k"
      unfolding out using dist by (intro map_of_insert_at_position_other)
    then show ?thesis using n False by simp
  next
    case True
    show ?thesis
    proof (cases "''version'' \<in> set (take 2 (map fst d))")
      case early: True
      then have "''version'' \<in> set (take 2 (map fst ?n))" using version_in_first_two by blast
      then have "''version'' \<in> fst ` set (take 2 ?n)" by (simp add: take_map)
      then have "map_of out ''version'' = Some (JStr ''1.0'')"
        unfolding out using dist by (intro map_of_insert_at_position_early)
      then show ?thesis using True early by simp
    next
      case late: False
      from convert_to_1_0_version(4) [OF assms(1,2) late] assms(3) True late
      show ?thesis by simp
    qed
  qed
qed

theorem other_keys_unchanged_witness:
  "distinct (map fst example_legacy) \<and> convert_to_1_0 example_legacy = Inr example_migrated \<and>
   map_of example_legacy ''b'' = Some (JInt 2) \<and> map_of example_migrated ''b'' = Some (JInt 2)"
proof -
  have d: "distinct (map fst example_legacy)" and b: "map_of example_legacy ''b'' = Some (JInt 2)"
    by (simp_all add: example_legacy_def)
  from other_keys_unchanged [OF d example_converts b]
  have "map_of example_migrated ''b'' = Some (JInt 2)" by simp
  then show ?thesis using d b example_converts by simp
qed

section \<open>Entries that are not pairs\<close>













section \<open>The input dictionary is left alone\<close>

lemma heap_setitem_fresh:
  "a < length h \<Longrightarrow> heap_setitem (h @ [d]) (length h) k v ! a = h ! a"
  by (simp add: heap_setitem_def nth_append)

lemma heap_setitem_append:
  "heap_setitem (h @ [d]) (length h) k v = h @ [dict_setitem d k v]"
  by (simp add: heap_setitem_def)

text \<open>
  C7. Run on a store, \<open>convert_to_1_0\<close> leaves the dictionary it was given, and every
  other dictionary already in the store, exactly as it was: same keys, same values, same
  order. What it returns is a dictionary at a new address, and its contents are those the
  function on values computes; the same holds for the error when it raises.
\<close>

theorem input_not_mutated:
  assumes "old_json < length h"
  shows "case convert_to_1_0_heap h old_json of
           (h', r) \<Rightarrow>
             h' ! old_json = h ! old_json \<and> take (length h) h' = h \<and>
             (case r of
                Inl e \<Rightarrow> convert_to_1_0 (h ! old_json) = Inl e
              | Inr new_json \<Rightarrow>
                  length h \<le> new_json \<and> new_json < length h' \<and>
                  convert_to_1_0 (h ! old_json) = Inr (h' ! new_json))"
  using assms
  by (auto simp: convert_to_1_0_heap_def convert_to_1_0_def Let_def heap_alloc_def
        heap_setitem_append insert_at_position_heap_def insert_at_position_def nth_append
      split: sum.splits)

theorem input_not_mutated_witness:
  "(0::nat) < length [example_legacy] \<and>
   fst (convert_to_1_0_heap [example_legacy] 0) ! 0 = example_legacy \<and>
   snd (convert_to_1_0_heap [example_legacy] 0) = Inr 2 \<and>
   fst (convert_to_1_0_heap [example_legacy] 0) ! 2 = example_migrated"
proof -
  have c: "convert_to_1_0 ([example_legacy] ! 0) = Inr example_migrated"
    by (simp add: example_converts)
  obtain h' r where hr: "convert_to_1_0_heap [example_legacy] 0 = (h', r)"
    by (cases "convert_to_1_0_heap [example_legacy] 0")
  have r: "r = Inr 2"
    using hr by (auto simp: convert_to_1_0_heap_def example_legacy_def convert_defs heap_alloc_def
        heap_setitem_def insert_at_position_heap_def numeral_2_eq_2)
  from input_not_mutated [of 0 "[example_legacy]"] hr r c
  show ?thesis by simp
qed

section \<open>Renaming to the backup, then writing\<close>









section \<open>The four versions of the radius formula\<close>

lemma get_dist_expanded: "get_dist sz d = wtf_is_going_on (of_int sz) d"
  by (simp add: get_dist_def wtf_is_going_on_def Let_def power2_eq_square field_simps)

lemma simpl_eq_totally_cursed: "get_max_radii_simpl sz = totally_cursed sz"
  by (simp add: get_max_radii_simpl_def totally_cursed_def get_dist_def Let_def)

lemma totally_cursed_eq_even_more_cursed: "totally_cursed sz = even_more_cursed sz"
  using get_dist_expanded
  by (simp add: totally_cursed_def even_more_cursed_def get_dist_def Let_def)

lemma max_corner_even: "py_int ((of_int (2 * m) / 2) - 1) = m - 1"
proof -
  have "(of_int (2 * m) / 2) - 1 = (of_int (m - 1) :: rat)" by simp
  then show ?thesis by (simp only: py_int_def floor_of_int ceiling_of_int if_cancel)
qed

lemma max_corner_odd_pos:
  assumes "1 \<le> m"
  shows "py_int ((of_int (2 * m + 1) / 2) - 1) = m - 1"
proof -
  have e: "(of_int (2 * m + 1) / 2) - 1 = (of_int m - 1 / 2 :: rat)" by (simp add: field_simps)
  have "0 \<le> (of_int m - 1 / 2 :: rat)" using assms by simp
  moreover have "\<lfloor>of_int m - 1 / 2 :: rat\<rfloor> = m - 1" by (simp add: floor_unique)
  ultimately show ?thesis unfolding e py_int_def by (simp only: if_True)
qed

lemma max_corner_odd_neg:
  assumes "m < 0"
  shows "py_int ((of_int (2 * m + 1) / 2) - 1) = m"
proof -
  have e: "(of_int (2 * m + 1) / 2) - 1 = (of_int m - 1 / 2 :: rat)" by (simp add: field_simps)
  have "\<not> 0 \<le> (of_int m - 1 / 2 :: rat)" using assms by simp
  moreover have "\<lceil>of_int m - 1 / 2 :: rat\<rceil> = m" by (simp add: ceiling_unique)
  ultimately show ?thesis unfolding e py_int_def by (simp only: if_False)
qed

lemma range_max_corner:
  assumes "sz \<noteq> 1"
  shows "py_range (py_int ((of_int sz / 2) - 1) + 1) = py_range (sz div 2)"
proof (cases "even sz")
  case True
  then obtain m where "sz = 2 * m" by (auto elim: evenE)
  then show ?thesis by (simp add: max_corner_even del: of_int_mult)
next
  case False
  then obtain m where m: "sz = 2 * m + 1" by (auto elim: oddE)
  with assms have "m \<noteq> 0" by simp
  then consider "1 \<le> m" | "m < 0" by linarith
  then show ?thesis
  proof cases
    case 1
    then show ?thesis unfolding m by (simp add: max_corner_odd_pos del: of_int_add of_int_mult)
  next
    case 2
    then show ?thesis unfolding m
      by (simp add: max_corner_odd_neg py_range_def del: of_int_add of_int_mult)
  qed
qed

lemma max_radii_agree_except_1:
  assumes "sz \<noteq> 1"
  shows "get_max_radii sz = get_max_radii_simpl sz"
  using range_max_corner [OF assms]
  by (simp add: get_max_radii_def get_max_radii_simpl_def get_dist_def Let_def)

text \<open>
  C9. The four functions are meant to return the same list for every grid size. The last
  three always do, and the first agrees with them for every size other than 1 (the lemmas
  above). At size 1 it does not: \<^verbatim>\<open>int(1/2 - 1)\<close> truncates \<open>-1/2\<close> to \<open>0\<close>, so
  \<open>get_max_radii\<close> runs its loop once and returns one radius, where \<^verbatim>\<open>range(1 // 2)\<close> is
  empty and the other three return the empty list.
\<close>

theorem max_radii_disagree_at_1:
  "get_max_radii 1 = [0] \<and> get_max_radii_simpl 1 = [] \<and> totally_cursed 1 = [] \<and>
   even_more_cursed 1 = []"
  by code_simp

end
